theory Spec2Isabelle
  imports Complex_Main "HOL-Library.AList" "HOL-Library.Multiset"
    "HOL-Library.Char_ord" "HOL-Library.List_Lexorder"
begin

section \<open>Values of the scorer\<close>

text \<open>
  \<^verbatim>\<open>score_predictions.py\<close> works on what \<^verbatim>\<open>json.loads\<close> returns: \<^verbatim>\<open>None\<close>,
  booleans, numbers, strings, lists and dicts with string keys. A dict is kept as the list
  of its items (its keys are distinct, as \<^verbatim>\<open>json.loads\<close> builds it) and read with
  \<^const>\<open>map_of\<close>. Numbers are idealised: an \<^verbatim>\<open>int\<close> and a \<^verbatim>\<open>float\<close> are both a real
  number, so rounding, overflow, infinities and not-a-number inputs are outside the model.
  A string is a list of characters, one per code point.
\<close>

datatype json =
    JNull
  | JBool bool
  | JNum real
  | JStr string
  | JArr "json list"
  | JObj "(string \<times> json) list"

text \<open>The exceptions the script can die of; none of them is caught anywhere.\<close>

datatype error =
    KeyError
  | TypeError
  | ValueError
  | AttributeError
  | ZeroDivisionError
  | OSError
  | JSONDecodeError

type_synonym 'a result = "error + 'a"

text \<open>Sequencing of two steps, the first of which may raise.\<close>

definition ebind :: "'a result \<Rightarrow> ('a \<Rightarrow> 'b result) \<Rightarrow> 'b result" where
  "ebind m f = (case m of Inl e \<Rightarrow> Inl e | Inr x \<Rightarrow> f x)"

subsection \<open>The Python operations the script applies to these values\<close>

text \<open>\<^verbatim>\<open>bool(x)\<close>, as \<^verbatim>\<open>if x\<close>, \<^verbatim>\<open>not x\<close> and \<^verbatim>\<open>x or y\<close> read it.\<close>

fun truthy :: "json \<Rightarrow> bool" where
  "truthy JNull = False"
| "truthy (JBool b) = b"
| "truthy (JNum n) = (n \<noteq> 0)"
| "truthy (JStr s) = (s \<noteq> [])"
| "truthy (JArr xs) = (xs \<noteq> [])"
| "truthy (JObj kvs) = (kvs \<noteq> [])"

definition py_or :: "json \<Rightarrow> json \<Rightarrow> json" where
  "py_or x y = (if truthy x then x else y)"

text \<open>\<^verbatim>\<open>x.get(k, d)\<close>: only a dict has the method.\<close>

fun py_get :: "json \<Rightarrow> string \<Rightarrow> json \<Rightarrow> json result" where
  "py_get (JObj kvs) k d = Inr (case map_of kvs k of None \<Rightarrow> d | Some v \<Rightarrow> v)"
| "py_get _ k d = Inl AttributeError"

text \<open>\<^verbatim>\<open>x[k]\<close> with a string \<^verbatim>\<open>k\<close>: a dict without the key raises \<^verbatim>\<open>KeyError\<close>, every
  other value \<^verbatim>\<open>TypeError\<close> (a list or string index must be an integer, the rest is not
  subscriptable).\<close>

fun py_getitem :: "json \<Rightarrow> string \<Rightarrow> json result" where
  "py_getitem (JObj kvs) k = (case map_of kvs k of None \<Rightarrow> Inl KeyError | Some v \<Rightarrow> Inr v)"
| "py_getitem _ k = Inl TypeError"

text \<open>\<^verbatim>\<open>x == y\<close>. \<^verbatim>\<open>True\<close> and \<^verbatim>\<open>False\<close> are the numbers 1 and 0; lists are equal
  element by element; dicts are equal when they have as many keys and every key of the
  first has an equal value in the second.\<close>

fun py_eq :: "json \<Rightarrow> json \<Rightarrow> bool"
  and py_eq_list :: "json list \<Rightarrow> json list \<Rightarrow> bool"
  and py_eq_items :: "(string \<times> json) list \<Rightarrow> (string \<times> json) list \<Rightarrow> bool" where
  "py_eq JNull y = (y = JNull)"
| "py_eq (JBool a) y =
     (case y of JBool b \<Rightarrow> a = b | JNum n \<Rightarrow> (if a then 1 else 0) = n | _ \<Rightarrow> False)"
| "py_eq (JNum m) y =
     (case y of JBool b \<Rightarrow> m = (if b then 1 else 0) | JNum n \<Rightarrow> m = n | _ \<Rightarrow> False)"
| "py_eq (JStr s) y = (y = JStr s)"
| "py_eq (JArr xs) y = (case y of JArr ys \<Rightarrow> py_eq_list xs ys | _ \<Rightarrow> False)"
| "py_eq (JObj a) y =
     (case y of JObj b \<Rightarrow> length a = length b \<and> py_eq_items a b | _ \<Rightarrow> False)"
| "py_eq_list [] ys = (ys = [])"
| "py_eq_list (x # xs) ys =
     (case ys of [] \<Rightarrow> False | y # ys' \<Rightarrow> py_eq x y \<and> py_eq_list xs ys')"
| "py_eq_items [] b = True"
| "py_eq_items (kv # a) b =
     (case map_of b (fst kv) of None \<Rightarrow> False
      | Some w \<Rightarrow> py_eq (snd kv) w \<and> py_eq_items a b)"

text \<open>A hashable value, as a dict or a set keeps it for a key: the representative of
  the key's equality class (\<^verbatim>\<open>True\<close>, \<^verbatim>\<open>1\<close> and \<^verbatim>\<open>1.0\<close> are one key), so that a
  dict keyed by representatives is read with plain equality.\<close>

datatype hkey = HNone | HNum real | HStr string

text \<open>\<^verbatim>\<open>hash(x)\<close>: a list or a dict is unhashable.\<close>

fun py_hash :: "json \<Rightarrow> hkey result" where
  "py_hash JNull = Inr HNone"
| "py_hash (JBool b) = Inr (HNum (if b then 1 else 0))"
| "py_hash (JNum n) = Inr (HNum n)"
| "py_hash (JStr s) = Inr (HStr s)"
| "py_hash (JArr xs) = Inl TypeError"
| "py_hash (JObj kvs) = Inl TypeError"

text \<open>\<^verbatim>\<open>x in s\<close> for a set \<^verbatim>\<open>s\<close>: the value is hashed first.\<close>

definition py_in :: "json \<Rightarrow> hkey set \<Rightarrow> bool result" where
  "py_in x s = ebind (py_hash x) (\<lambda>h. Inr (h \<in> s))"

text \<open>\<^verbatim>\<open>a < b\<close> on keys: numbers by value, strings by code points, and \<^verbatim>\<open>TypeError\<close>
  for \<^verbatim>\<open>None\<close> and across the two kinds.\<close>

fun key_lt :: "hkey \<Rightarrow> hkey \<Rightarrow> bool result" where
  "key_lt (HNum a) (HNum b) = Inr (a < b)"
| "key_lt (HStr a) (HStr b) = Inr (a < b)"
| "key_lt _ _ = Inl TypeError"

text \<open>\<^verbatim>\<open>iter(x)\<close>, as a \<^verbatim>\<open>for\<close> loop and a tuple unpacking run it: a list gives its
  elements, a string its characters, a dict its keys.\<close>

fun py_iter :: "json \<Rightarrow> json list result" where
  "py_iter (JArr xs) = Inr xs"
| "py_iter (JStr s) = Inr (map (\<lambda>c. JStr [c]) s)"
| "py_iter (JObj kvs) = Inr (map (\<lambda>kv. JStr (fst kv)) kvs)"
| "py_iter _ = Inl TypeError"

text \<open>\<^verbatim>\<open>float(x)\<close>. What it makes of a string (\<^verbatim>\<open>float("190")\<close> is a number,
  \<^verbatim>\<open>float("heavy")\<close> raises) is the parameter \<open>flt\<close>.\<close>

fun py_float :: "(string \<Rightarrow> real result) \<Rightarrow> json \<Rightarrow> real result" where
  "py_float flt (JNum n) = Inr n"
| "py_float flt (JBool b) = Inr (if b then 1 else 0)"
| "py_float flt (JStr s) = flt s"
| "py_float flt _ = Inl TypeError"

text \<open>\<^verbatim>\<open>a, b = x\<close>: exactly two elements, or \<^verbatim>\<open>ValueError\<close>.\<close>

definition unpack2 :: "json \<Rightarrow> (json \<times> json) result" where
  "unpack2 x = ebind (py_iter x)
     (\<lambda>xs. case xs of [a, b] \<Rightarrow> Inr (a, b) | _ \<Rightarrow> Inl ValueError)"

text \<open>\<^verbatim>\<open>a / b\<close>.\<close>

definition py_div :: "real \<Rightarrow> real \<Rightarrow> real result" where
  "py_div a b = (if b = 0 then Inl ZeroDivisionError else Inr (a / b))"

text \<open>\<^verbatim>\<open>s.strip()\<close>, with the whitespace characters below code point 256.\<close>

definition is_space :: "char \<Rightarrow> bool" where
  "is_space c = ((of_char c :: nat) \<in> {9, 10, 11, 12, 13, 28, 29, 30, 31, 32, 133, 160})"

definition strip :: "string \<Rightarrow> string" where
  "strip s = rev (dropWhile is_space (rev (dropWhile is_space s)))"

section \<open>The scorer\<close>

subsection \<open>Constants and helpers\<close>

definition MAIN :: "hkey set" where
  "MAIN = {HStr ''squat'', HStr ''bench'', HStr ''deadlift'', HStr ''ohp''}"

definition key :: "json \<Rightarrow> (json \<times> json \<times> json) result" where
  "key r =
     ebind (py_getitem r ''user_id'') (\<lambda>u.
     ebind (py_getitem r ''date'') (\<lambda>d.
     ebind (py_getitem r ''session_type'') (\<lambda>t.
     Inr (u, d, t))))"

text \<open>A tuple is hashed component by component.\<close>

definition hash_key :: "json \<times> json \<times> json \<Rightarrow> (hkey \<times> hkey \<times> hkey) result" where
  "hash_key k =
     (case k of (u, d, t) \<Rightarrow>
        ebind (py_hash u) (\<lambda>hu.
        ebind (py_hash d) (\<lambda>hd.
        ebind (py_hash t) (\<lambda>ht.
        Inr (hu, hd, ht)))))"

text \<open>\<^verbatim>\<open>load_jsonl\<close> reads a file line by line. The files (a path gives its lines, or
  \<^verbatim>\<open>open\<close> fails) and \<^verbatim>\<open>json.loads\<close> are parameters.\<close>

type_synonym files = "string \<Rightarrow> string list result"

fun load_lines :: "(string \<Rightarrow> json result) \<Rightarrow> string list \<Rightarrow> json list \<Rightarrow> json list result" where
  "load_lines loads [] out = Inr out"
| "load_lines loads (line # f) out =
     (if strip line \<noteq> []
      then ebind (loads line) (\<lambda>j. load_lines loads f (out @ [j]))
      else load_lines loads f out)"

definition load_jsonl :: "files \<Rightarrow> (string \<Rightarrow> json result) \<Rightarrow> string \<Rightarrow> json list result" where
  "load_jsonl fs loads path = ebind (fs path) (\<lambda>f. load_lines loads f [])"

fun find_loop :: "json list \<Rightarrow> json \<Rightarrow> json result" where
  "find_loop [] lift = Inr JNull"
| "find_loop (x # lst) lift =
     ebind (py_get x ''lift'' JNull) (\<lambda>v.
     if py_eq v lift then Inr x else find_loop lst lift)"

text \<open>\<^verbatim>\<open>find_by_lift\<close> returns the entry, or \<^verbatim>\<open>None\<close>.\<close>

definition find_by_lift :: "json \<Rightarrow> json \<Rightarrow> json result" where
  "find_by_lift lst lift = ebind (py_iter lst) (\<lambda>xs. find_loop xs lift)"

definition in_range :: "real \<Rightarrow> real \<Rightarrow> real \<Rightarrow> bool" where
  "in_range x lo hi = ((x \<ge> lo) \<and> (x \<le> hi))"

subsection \<open>The aggregates\<close>

text \<open>The five running figures: the script keeps them once in local variables of
  \<^verbatim>\<open>main\<close> (here \<open>overall\<close>) and once per user, in a \<^verbatim>\<open>defaultdict\<close> keyed by
  \<^verbatim>\<open>user_id\<close> (here the list of the dict's items, in insertion order).\<close>

record stats =
  total :: nat
  agree :: nat
  abs_err :: "real list"
  decision_ok :: nat
  decision_total :: nat

record state =
  overall :: stats
  per_user :: "(hkey \<times> stats) list"

definition stats0 :: stats where
  "stats0 = \<lparr>total = 0, agree = 0, abs_err = [], decision_ok = 0, decision_total = 0\<rparr>"

definition state0 :: state where
  "state0 = \<lparr>overall = stats0, per_user = []\<rparr>"

text \<open>\<^verbatim>\<open>per_user[u]\<close> makes the entry when it is missing.\<close>

definition user_get :: "(hkey \<times> stats) list \<Rightarrow> hkey \<Rightarrow> stats" where
  "user_get pu u = (case map_of pu u of None \<Rightarrow> stats0 | Some s \<Rightarrow> s)"

text \<open>Every update of the script comes in a pair of lines: the local variable, then the
  same field of \<^verbatim>\<open>per_user[r["user_id"]]\<close>.\<close>

definition both :: "hkey \<Rightarrow> (stats \<Rightarrow> stats) \<Rightarrow> state \<Rightarrow> state" where
  "both u f st =
     \<lparr>overall = f (overall st),
      per_user = AList.update u (f (user_get (per_user st) u)) (per_user st)\<rparr>"

subsection \<open>The evaluation loops\<close>

text \<open>\<^verbatim>\<open>float(x.get("prescribed_weight_lb") or 0)\<close>.\<close>

definition weight_of :: "(string \<Rightarrow> real result) \<Rightarrow> json \<Rightarrow> real result" where
  "weight_of flt x =
     ebind (py_get x ''prescribed_weight_lb'' JNull) (\<lambda>w. py_float flt (py_or w (JNum 0)))"

text \<open>\<^verbatim>\<open>lo, hi = e.get("acceptable_range_lb") or [e_w, e_w]\<close>, and the two calls of
  \<^verbatim>\<open>float\<close> after it.\<close>

definition range_of :: "(string \<Rightarrow> real result) \<Rightarrow> json \<Rightarrow> real \<Rightarrow> (real \<times> real) result" where
  "range_of flt e e_w =
     ebind (py_get e ''acceptable_range_lb'' JNull) (\<lambda>r.
     ebind (unpack2 (py_or r (JArr [JNum e_w, JNum e_w]))) (\<lambda>lh.
     ebind (py_float flt (fst lh)) (\<lambda>lo.
     ebind (py_float flt (snd lh)) (\<lambda>hi.
     Inr (lo, hi)))))"

text \<open>The body of \<^verbatim>\<open>for e in exp_list\<close>, for the user \<open>u\<close> of the record; a
  \<^verbatim>\<open>continue\<close> returns the state as it is.\<close>

definition eval_entry ::
  "(string \<Rightarrow> real result) \<Rightarrow> hkey \<Rightarrow> json \<Rightarrow> state \<Rightarrow> json \<Rightarrow> state result" where
  "eval_entry flt u pred_list st e =
     ebind (py_get e ''lift'' JNull) (\<lambda>lift.
     ebind (py_in lift MAIN) (\<lambda>m.
     if \<not> m then Inr st else
     ebind (find_by_lift pred_list lift) (\<lambda>p.
     if \<not> truthy p then Inr st else
     let st1 = both u (\<lambda>s. s\<lparr>total := total s + 1\<rparr>) st in
     ebind (weight_of flt e) (\<lambda>e_w.
     ebind (weight_of flt p) (\<lambda>p_w.
     ebind (range_of flt e e_w) (\<lambda>lh.
     let err = \<bar>e_w - p_w\<bar>;
         st2 = both u (\<lambda>s. s\<lparr>abs_err := abs_err s @ [err]\<rparr>) st1;
         st3 = (if in_range p_w (fst lh) (snd lh)
                then both u (\<lambda>s. s\<lparr>agree := agree s + 1\<rparr>) st2 else st2) in
     ebind (py_get e ''decision'' JNull) (\<lambda>e_d.
     ebind (py_get p ''decision'' JNull) (\<lambda>p_d.
     Inr (if e_d \<noteq> JNull \<and> p_d \<noteq> JNull
          then let st4 = both u (\<lambda>s. s\<lparr>decision_total := decision_total s + 1\<rparr>) st3 in
               if py_eq e_d p_d
               then both u (\<lambda>s. s\<lparr>decision_ok := decision_ok s + 1\<rparr>) st4 else st4
          else st3)))))))))"

fun eval_entries ::
  "(string \<Rightarrow> real result) \<Rightarrow> hkey \<Rightarrow> json \<Rightarrow> state \<Rightarrow> json list \<Rightarrow> state result" where
  "eval_entries flt u pred_list st [] = Inr st"
| "eval_entries flt u pred_list st (e # es) =
     ebind (eval_entry flt u pred_list st e) (\<lambda>st'. eval_entries flt u pred_list st' es)"

text \<open>A dict keyed by identity keys: the predictions index.\<close>

type_synonym index = "((hkey \<times> hkey \<times> hkey) \<times> json) list"

text \<open>\<^verbatim>\<open>r.get("expected", {}).get("session_prescription_for_today")\<close>.\<close>

definition expected_list :: "json \<Rightarrow> json result" where
  "expected_list r =
     ebind (py_get r ''expected'' (JObj [])) (\<lambda>x.
     py_get x ''session_prescription_for_today'' JNull)"

text \<open>The body of \<^verbatim>\<open>for r in ds\<close>.\<close>

definition eval_record ::
  "(string \<Rightarrow> real result) \<Rightarrow> index \<Rightarrow> state \<Rightarrow> json \<Rightarrow> state result" where
  "eval_record flt pred st r =
     ebind (expected_list r) (\<lambda>exp_list.
     if \<not> truthy exp_list then Inr st else
     ebind (key r) (\<lambda>k.
     ebind (hash_key k) (\<lambda>hk.
     case map_of pred hk of
       None \<Rightarrow> Inr st
     | Some q \<Rightarrow>
         ebind (py_get q ''engine_output'' (JObj [])) (\<lambda>x.
         ebind (py_get x ''session_prescription_for_today'' (JArr [])) (\<lambda>pred_list.
         ebind (py_iter exp_list) (\<lambda>es.
         eval_entries flt (fst hk) pred_list st es))))))"

fun eval_records ::
  "(string \<Rightarrow> real result) \<Rightarrow> index \<Rightarrow> state \<Rightarrow> json list \<Rightarrow> state result" where
  "eval_records flt pred st [] = Inr st"
| "eval_records flt pred st (r # ds) =
     ebind (eval_record flt pred st r) (\<lambda>st'. eval_records flt pred st' ds)"

text \<open>\<^verbatim>\<open>pred = {key(r): r for r in pr}\<close>: the records are stored in file order.\<close>

fun index_loop :: "index \<Rightarrow> json list \<Rightarrow> index result" where
  "index_loop pred [] = Inr pred"
| "index_loop pred (r # pr) =
     ebind (key r) (\<lambda>k.
     ebind (hash_key k) (\<lambda>hk.
     index_loop (AList.update hk r pred) pr))"

definition index_predictions :: "json list \<Rightarrow> index result" where
  "index_predictions pr = index_loop [] pr"

subsection \<open>The report\<close>

text \<open>A printed figure is a number or \<^verbatim>\<open>float("nan")\<close>; the two-decimal formatting
  of the f-strings is not modelled, a line is kept as the values it shows.\<close>

datatype number = Num real | NaN

datatype out_line =
    Text string
  | Agreement nat nat number
  | MAE number
  | DecisionAccuracy nat nat number
  | UserLine hkey number number number nat

text \<open>\<^verbatim>\<open>sum(xs)/len(xs) if xs else float("nan")\<close>.\<close>

definition mean_abs_err :: "real list \<Rightarrow> number result" where
  "mean_abs_err xs =
     (if xs \<noteq> [] then ebind (py_div (sum_list xs) (real (length xs))) (\<lambda>q. Inr (Num q))
      else Inr NaN)"

text \<open>\<^verbatim>\<open>a/t if t else 0\<close>.\<close>

definition rate :: "nat \<Rightarrow> nat \<Rightarrow> number result" where
  "rate a t =
     (if t \<noteq> 0 then ebind (py_div (real a) (real t)) (\<lambda>q. Inr (Num q))
      else Inr (Num 0))"

text \<open>\<^verbatim>\<open>sorted(per_user.items())\<close>: the keys of a dict differ, so two items are ordered
  by their keys. The sort is modelled by insertion; it raises where a comparison does.\<close>

fun insert_item :: "hkey \<times> stats \<Rightarrow> (hkey \<times> stats) list \<Rightarrow> (hkey \<times> stats) list result" where
  "insert_item x [] = Inr [x]"
| "insert_item x (y # ys) =
     ebind (key_lt (fst x) (fst y)) (\<lambda>b.
     if b then Inr (x # y # ys)
     else ebind (insert_item x ys) (\<lambda>zs. Inr (y # zs)))"

fun sorted_items :: "(hkey \<times> stats) list \<Rightarrow> (hkey \<times> stats) list result" where
  "sorted_items [] = Inr []"
| "sorted_items (x # xs) = ebind (sorted_items xs) (insert_item x)"

text \<open>The body of the per-user loop: one line.\<close>

definition user_line :: "hkey \<times> stats \<Rightarrow> out_line result" where
  "user_line us =
     (case us of (u, s) \<Rightarrow>
        ebind (mean_abs_err (abs_err s)) (\<lambda>user_mae.
        ebind (rate (agree s) (total s)) (\<lambda>agree_rate.
        ebind (rate (decision_ok s) (decision_total s)) (\<lambda>dec_rate.
        Inr (UserLine u agree_rate user_mae dec_rate (total s))))))"

text \<open>Printing line after line: the lines before a raise are on standard output.\<close>

fun prints :: "out_line result list \<Rightarrow> out_line list \<times> error option" where
  "prints [] = ([], None)"
| "prints (l # ls) =
     (case l of
        Inl e \<Rightarrow> ([], Some e)
      | Inr x \<Rightarrow> (case prints ls of (out, r) \<Rightarrow> (x # out, r)))"

definition report :: "state \<Rightarrow> out_line list \<times> error option" where
  "report st =
     (let g = overall st in
      case mean_abs_err (abs_err g) of
        Inl e \<Rightarrow> ([], Some e)
      | Inr mae \<Rightarrow>
          prints
            ([ebind (rate (agree g) (total g)) (\<lambda>q. Inr (Agreement (agree g) (total g) q)),
              Inr (MAE mae),
              ebind (rate (decision_ok g) (decision_total g))
                (\<lambda>q. Inr (DecisionAccuracy (decision_ok g) (decision_total g) q)),
              Inr (Text ''Per-user:'')]
             @ (case sorted_items (per_user st) of
                  Inl e \<Rightarrow> [Inl e]
                | Inr items \<Rightarrow> map user_line items)))"

subsection \<open>The program\<close>

text \<open>How the process ends: \<^verbatim>\<open>sys.exit(2)\<close>, the end of \<^verbatim>\<open>main\<close>, or an exception
  nobody catches.\<close>

datatype exit = Exit nat | Uncaught error

text \<open>The steps between the argument check and the report.\<close>

definition score ::
  "files \<Rightarrow> (string \<Rightarrow> json result) \<Rightarrow> (string \<Rightarrow> real result) \<Rightarrow> string \<Rightarrow> string \<Rightarrow> state result" where
  "score fs loads flt dataset predictions =
     ebind (load_jsonl fs loads dataset) (\<lambda>ds.
     ebind (load_jsonl fs loads predictions) (\<lambda>pr.
     ebind (index_predictions pr) (\<lambda>pred.
     eval_records flt pred state0 ds)))"

text \<open>\<^verbatim>\<open>main\<close>, from \<^verbatim>\<open>sys.argv\<close> (the script's name first) to what is on standard
  output and how the process ends.\<close>

definition main ::
  "files \<Rightarrow> (string \<Rightarrow> json result) \<Rightarrow> (string \<Rightarrow> real result) \<Rightarrow> string list
     \<Rightarrow> out_line list \<times> exit" where
  "main fs loads flt argv =
     (if length argv \<noteq> 3
      then ([Text ''Usage: score_predictions.py dataset.jsonl predictions.jsonl''], Exit 2)
      else case score fs loads flt (argv ! 1) (argv ! 2) of
             Inl e \<Rightarrow> ([], Uncaught e)
           | Inr st \<Rightarrow>
               (case report st of
                  (out, None) \<Rightarrow> (out, Exit 0)
                | (out, Some e) \<Rightarrow> (out, Uncaught e)))"

section \<open>Notions the properties are stated with\<close>

text \<open>An entry is a dict.\<close>

definition is_dict :: "json \<Rightarrow> bool" where
  "is_dict x = (case x of JObj kvs \<Rightarrow> True | _ \<Rightarrow> False)"

text \<open>The entry \<open>x\<close> has a \<^verbatim>\<open>lift\<close> field equal to the target.\<close>

definition lift_is :: "json \<Rightarrow> json \<Rightarrow> bool" where
  "lift_is lift x = (case py_get x ''lift'' JNull of Inl e \<Rightarrow> False | Inr v \<Rightarrow> py_eq v lift)"

text \<open>What one evaluated entry adds to a set of figures: its absolute error, and whether
  it agreed, was compared on the decision and matched on it.\<close>

definition tally :: "real \<Rightarrow> bool \<Rightarrow> bool \<Rightarrow> bool \<Rightarrow> stats \<Rightarrow> stats" where
  "tally err ag cmp ok s =
     s\<lparr>total := total s + 1,
       agree := agree s + (if ag then 1 else 0),
       abs_err := abs_err s @ [err],
       decision_ok := decision_ok s + (if ok then 1 else 0),
       decision_total := decision_total s + (if cmp then 1 else 0)\<rparr>"

text \<open>The identity key of a record as the index keeps it, whether a record has one, and
  the last record of a list that bears a key.\<close>

definition record_key :: "json \<Rightarrow> (hkey \<times> hkey \<times> hkey) result" where
  "record_key r = ebind (key r) hash_key"

definition has_key :: "json \<Rightarrow> bool" where
  "has_key r = (case record_key r of Inl e \<Rightarrow> False | Inr k \<Rightarrow> True)"

definition last_with_key :: "hkey \<times> hkey \<times> hkey \<Rightarrow> json list \<Rightarrow> json option" where
  "last_with_key k pr =
     (case filter (\<lambda>r. record_key r = Inr k) pr of [] \<Rightarrow> None | r # rs \<Rightarrow> Some (last (r # rs)))"

text \<open>The per-user figures add up to the overall ones, and no user is listed twice.\<close>

definition sums_agree :: "state \<Rightarrow> bool" where
  "sums_agree st =
     (sum_list (map (\<lambda>us. total (snd us)) (per_user st)) = total (overall st)
      \<and> sum_list (map (\<lambda>us. agree (snd us)) (per_user st)) = agree (overall st)
      \<and> sum_list (map (\<lambda>us. decision_total (snd us)) (per_user st)) = decision_total (overall st)
      \<and> sum_list (map (\<lambda>us. decision_ok (snd us)) (per_user st)) = decision_ok (overall st)
      \<and> mset (concat (map (\<lambda>us. abs_err (snd us)) (per_user st))) = mset (abs_err (overall st))
      \<and> distinct (map fst (per_user st)))"

text \<open>The line the report prints for an item of the per-user dict.\<close>

definition line_of :: "hkey \<times> stats \<Rightarrow> out_line" where
  "line_of us =
     UserLine (fst us)
       (Num (if total (snd us) = 0 then 0 else real (agree (snd us)) / real (total (snd us))))
       (if abs_err (snd us) = [] then NaN
        else Num (sum_list (abs_err (snd us)) / real (length (abs_err (snd us)))))
       (Num (if decision_total (snd us) = 0 then 0
             else real (decision_ok (snd us)) / real (decision_total (snd us))))
       (total (snd us))"

text \<open>Every user of the per-user dict has at least one evaluated entry.\<close>

definition users_counted :: "state \<Rightarrow> bool" where
  "users_counted st = list_all (\<lambda>us. 1 \<le> total (snd us)) (per_user st)"

text \<open>Data for the examples: an expected entry with a range and a decision, a predicted
  entry at the upper bound of the range and without a decision, and a \<^verbatim>\<open>float\<close> that
  accepts no string.\<close>

definition ex_expected :: json where
  "ex_expected = JObj [(''lift'', JStr ''squat''), (''prescribed_weight_lb'', JNum 200),
     (''acceptable_range_lb'', JArr [JNum 190, JNum 210]), (''decision'', JStr ''increase'')]"

definition ex_predicted :: json where
  "ex_predicted = JObj [(''lift'', JStr ''squat''), (''prescribed_weight_lb'', JNum 210)]"

definition no_float :: "string \<Rightarrow> real result" where
  "no_float s = Inl ValueError"

text \<open>A dataset record and a prediction record of a user, the index of the predictions
  of two users, and the aggregates after one evaluated entry for each of them.\<close>

definition ex_record :: "string \<Rightarrow> json \<Rightarrow> json" where
  "ex_record u x =
     JObj [(''user_id'', JStr u), (''date'', JStr ''2024-01-01''), (''session_type'', JStr ''A''),
       (''expected'', JObj [(''session_prescription_for_today'', x)])]"

definition ex_prediction :: "string \<Rightarrow> json \<Rightarrow> json" where
  "ex_prediction u x =
     JObj [(''user_id'', JStr u), (''date'', JStr ''2024-01-01''), (''session_type'', JStr ''A''),
       (''engine_output'', JObj [(''session_prescription_for_today'', x)])]"

definition ex_index :: index where
  "ex_index =
     [((HStr ''u1'', HStr ''2024-01-01'', HStr ''A''), ex_prediction ''u1'' (JArr [ex_predicted])),
      ((HStr ''u2'', HStr ''2024-01-01'', HStr ''A''), ex_prediction ''u2'' (JArr [ex_predicted]))]"

definition ex_stats :: stats where
  "ex_stats = \<lparr>total = 1, agree = 1, abs_err = [10], decision_ok = 0, decision_total = 0\<rparr>"

definition ex_final :: state where
  "ex_final =
     \<lparr>overall = \<lparr>total = 2, agree = 2, abs_err = [10, 10], decision_ok = 0, decision_total = 0\<rparr>,
      per_user = [(HStr ''u2'', ex_stats), (HStr ''u1'', ex_stats)]\<rparr>"

text \<open>An entry for a lift, with a weight and nothing else.\<close>

definition ex_lift :: "string \<Rightarrow> json" where
  "ex_lift l = JObj [(''lift'', JStr l), (''prescribed_weight_lb'', JNum 100)]"

text \<open>A predicted entry five pounds off.\<close>

definition ex_predicted_ohp :: json where
  "ex_predicted_ohp = JObj [(''lift'', JStr ''ohp''), (''prescribed_weight_lb'', JNum 105)]"

text \<open>A dataset record of a user without predictions, whose \<^verbatim>\<open>expected\<close> is
  \<^verbatim>\<open>null\<close>.\<close>

definition ex_null_record :: json where
  "ex_null_record =
     JObj [(''user_id'', JStr ''u3''), (''date'', JStr ''2024-01-01''), (''session_type'', JStr ''A''),
       (''expected'', JNull)]"

section \<open>Properties\<close>

subsection \<open>Sequencing\<close>

lemma ebind_Inl [simp]: "ebind (Inl e) f = Inl e"
  by (simp add: ebind_def)

lemma ebind_Inr [simp]: "ebind (Inr x) f = f x"
  by (simp add: ebind_def)

lemma ebind_eq_Inr: "ebind m f = Inr y \<longleftrightarrow> (\<exists>x. m = Inr x \<and> f x = Inr y)"
  by (cases m) simp_all

lemma py_get_dict: "is_dict x \<Longrightarrow> \<exists>v. py_get x k d = Inr v"
  by (cases x) (simp_all add: is_dict_def)

subsection \<open>The lift matcher\<close>

lemma find_loop_first:
  "list_all is_dict xs \<Longrightarrow>
   find_loop xs lift = Inr (case List.find (lift_is lift) xs of None \<Rightarrow> JNull | Some x \<Rightarrow> x)"
proof (induction xs)
  case Nil
  then show ?case by simp
next
  case (Cons x xs)
  then obtain v where v: "py_get x ''lift'' JNull = Inr v"
    using py_get_dict [of x] by auto
  with Cons show ?case
    by (simp add: lift_is_def)
qed

text \<open>
  C6. On a sequence of entries, \<^const>\<open>find_by_lift\<close> returns the entry at the least
  index whose \<^verbatim>\<open>lift\<close> field equals the target, so of several entries for one lift only
  the first is ever returned; when no entry matches it returns \<^verbatim>\<open>None\<close>.
\<close>

theorem find_by_lift_first:
  assumes "list_all is_dict xs"
  shows "(\<exists>i<length xs. find_by_lift (JArr xs) lift = Inr (xs ! i) \<and> lift_is lift (xs ! i)
            \<and> (\<forall>j<i. \<not> lift_is lift (xs ! j)))
         \<or> (find_by_lift (JArr xs) lift = Inr JNull \<and> (\<forall>i<length xs. \<not> lift_is lift (xs ! i)))"
proof (cases "List.find (lift_is lift) xs")
  case None
  then have "\<forall>i<length xs. \<not> lift_is lift (xs ! i)"
    by (simp add: find_None_iff)
  with None assms show ?thesis
    by (simp add: find_by_lift_def find_loop_first)
next
  case (Some x)
  then obtain i where "i < length xs" "lift_is lift (xs ! i)" "x = xs ! i"
    "\<forall>j<i. \<not> lift_is lift (xs ! j)"
    by (auto simp: find_Some_iff)
  with Some assms show ?thesis
    by (auto simp: find_by_lift_def find_loop_first)
qed

theorem find_by_lift_first_witness:
  "list_all is_dict
     [JObj [(''lift'', JStr ''bench''), (''prescribed_weight_lb'', JNum 100)],
      JObj [(''lift'', JStr ''squat''), (''prescribed_weight_lb'', JNum 200)],
      JObj [(''lift'', JStr ''squat''), (''prescribed_weight_lb'', JNum 300)]]
   \<and> find_by_lift
     (JArr [JObj [(''lift'', JStr ''bench''), (''prescribed_weight_lb'', JNum 100)],
            JObj [(''lift'', JStr ''squat''), (''prescribed_weight_lb'', JNum 200)],
            JObj [(''lift'', JStr ''squat''), (''prescribed_weight_lb'', JNum 300)]])
     (JStr ''squat'')
     = Inr (JObj [(''lift'', JStr ''squat''), (''prescribed_weight_lb'', JNum 200)])
   \<and> find_by_lift
     (JArr [JObj [(''lift'', JStr ''bench''), (''prescribed_weight_lb'', JNum 100)],
            JObj [(''lift'', JStr ''squat''), (''prescribed_weight_lb'', JNum 200)],
            JObj [(''lift'', JStr ''squat''), (''prescribed_weight_lb'', JNum 300)]])
     (JStr ''deadlift'')
     = Inr JNull"
  using find_by_lift_first
    [of "[JObj [(''lift'', JStr ''bench''), (''prescribed_weight_lb'', JNum 100)],
          JObj [(''lift'', JStr ''squat''), (''prescribed_weight_lb'', JNum 200)],
          JObj [(''lift'', JStr ''squat''), (''prescribed_weight_lb'', JNum 300)]]"
        "JStr ''squat''"]
  by (simp add: is_dict_def find_by_lift_def)

subsection \<open>The command line\<close>

text \<open>
  C9. When \<^verbatim>\<open>sys.argv\<close> does not hold exactly the script's name and two arguments, the
  program prints the usage line and exits with code 2, whatever the files hold: nothing is
  read and no report line is printed.
\<close>

theorem main_usage:
  "length argv \<noteq> 3 \<Longrightarrow>
   main fs loads flt argv =
     ([Text ''Usage: score_predictions.py dataset.jsonl predictions.jsonl''], Exit 2)"
  by (simp add: main_def)

theorem main_usage_witness:
  "length [''score_predictions.py'', ''dataset.jsonl''] \<noteq> 3 \<and>
   main (\<lambda>p. Inl OSError) (\<lambda>l. Inl JSONDecodeError) (\<lambda>s. Inl ValueError)
     [''score_predictions.py'', ''dataset.jsonl''] =
     ([Text ''Usage: score_predictions.py dataset.jsonl predictions.jsonl''], Exit 2)"
  using main_usage [of "[''score_predictions.py'', ''dataset.jsonl'']"
      "\<lambda>p. Inl OSError" "\<lambda>l. Inl JSONDecodeError" "\<lambda>s. Inl ValueError"]
  by simp

subsection \<open>One evaluated entry\<close>

lemma user_get_update [simp]: "user_get (AList.update u v pu) u = v"
  by (simp add: user_get_def update_conv')

lemma both_both: "both u f (both u g st) = both u (\<lambda>s. f (g s)) st"
  by (simp add: both_def)

lemma both_cong: "(\<And>s. f s = g s) \<Longrightarrow> both u f st = both u g st"
  by (simp add: both_def)

lemma eval_entry_evaluated:
  assumes "py_get e ''lift'' JNull = Inr lift" and "py_in lift MAIN = Inr True"
    and "find_by_lift pl lift = Inr p" and "truthy p"
    and "weight_of flt e = Inr e_w" and "weight_of flt p = Inr p_w"
    and "range_of flt e e_w = Inr (lo, hi)"
    and "py_get e ''decision'' JNull = Inr e_d" and "py_get p ''decision'' JNull = Inr p_d"
  shows "eval_entry flt u pl st e =
    Inr (both u (tally \<bar>e_w - p_w\<bar> (in_range p_w lo hi) (e_d \<noteq> JNull \<and> p_d \<noteq> JNull)
      (e_d \<noteq> JNull \<and> p_d \<noteq> JNull \<and> py_eq e_d p_d)) st)"
  unfolding eval_entry_def using assms
  by (auto simp: Let_def both_both tally_def intro!: both_cong)

lemma eval_entry_cases:
  assumes "eval_entry flt u pl st e = Inr st'"
  obtains (skipped) "st' = st"
  | (evaluated) lift p e_w p_w lo hi e_d p_d where
      "py_get e ''lift'' JNull = Inr lift" "py_in lift MAIN = Inr True"
      "find_by_lift pl lift = Inr p" "truthy p"
      "weight_of flt e = Inr e_w" "weight_of flt p = Inr p_w"
      "range_of flt e e_w = Inr (lo, hi)"
      "py_get e ''decision'' JNull = Inr e_d" "py_get p ''decision'' JNull = Inr p_d"
      "st' = both u (tally \<bar>e_w - p_w\<bar> (in_range p_w lo hi) (e_d \<noteq> JNull \<and> p_d \<noteq> JNull)
         (e_d \<noteq> JNull \<and> p_d \<noteq> JNull \<and> py_eq e_d p_d)) st"
proof (cases "\<exists>lift p. py_get e ''lift'' JNull = Inr lift \<and> py_in lift MAIN = Inr True
    \<and> find_by_lift pl lift = Inr p \<and> truthy p")
  case False
  with assms have "st' = st"
    unfolding eval_entry_def by (auto simp: ebind_eq_Inr split: if_splits)
  then show thesis by (rule skipped)
next
  case True
  then obtain lift p where f: "py_get e ''lift'' JNull = Inr lift" "py_in lift MAIN = Inr True"
    "find_by_lift pl lift = Inr p" "truthy p"
    by blast
  with assms obtain e_w p_w lh e_d p_d where
    w: "weight_of flt e = Inr e_w" "weight_of flt p = Inr p_w" "range_of flt e e_w = Inr lh"
    "py_get e ''decision'' JNull = Inr e_d" "py_get p ''decision'' JNull = Inr p_d"
    unfolding eval_entry_def by (auto simp: ebind_eq_Inr Let_def)
  obtain lo hi where lh: "lh = (lo, hi)" by (cases lh)
  with w have rg: "range_of flt e e_w = Inr (lo, hi)" by simp
  have "eval_entry flt u pl st e =
    Inr (both u (tally \<bar>e_w - p_w\<bar> (in_range p_w lo hi) (e_d \<noteq> JNull \<and> p_d \<noteq> JNull)
      (e_d \<noteq> JNull \<and> p_d \<noteq> JNull \<and> py_eq e_d p_d)) st)"
    by (rule eval_entry_evaluated [OF f w(1,2) rg w(4,5)])
  with assms have "st' = both u (tally \<bar>e_w - p_w\<bar> (in_range p_w lo hi)
      (e_d \<noteq> JNull \<and> p_d \<noteq> JNull)
      (e_d \<noteq> JNull \<and> p_d \<noteq> JNull \<and> py_eq e_d p_d)) st"
    by simp
  then show thesis
    by (rule evaluated [OF f w(1,2) rg w(4,5)])
qed

subsection \<open>Invariants of the loops\<close>

lemma eval_entries_invariant:
  assumes step: "\<And>u err ag cmp ok st. P st \<Longrightarrow> P (both u (tally err ag cmp ok) st)"
  shows "eval_entries flt u pl st es = Inr st' \<Longrightarrow> P st \<Longrightarrow> P st'"
proof (induction es arbitrary: st)
  case Nil
  then show ?case by simp
next
  case (Cons e es)
  from Cons.prems obtain st1 where e: "eval_entry flt u pl st e = Inr st1"
    and r: "eval_entries flt u pl st1 es = Inr st'"
    by (auto simp: ebind_eq_Inr)
  from e have "P st1"
    by (cases rule: eval_entry_cases) (use Cons.prems step in auto)
  with r show ?case by (rule Cons.IH)
qed

lemma eval_record_invariant:
  assumes step: "\<And>u err ag cmp ok st. P st \<Longrightarrow> P (both u (tally err ag cmp ok) st)"
    and "eval_record flt pred st r = Inr st'" and "P st"
  shows "P st'"
  using assms(2,3) unfolding eval_record_def
  by (auto simp: ebind_eq_Inr split: if_splits option.splits
      intro: eval_entries_invariant [where P = P, OF step])

lemma eval_records_invariant:
  assumes step: "\<And>u err ag cmp ok st. P st \<Longrightarrow> P (both u (tally err ag cmp ok) st)"
  shows "eval_records flt pred st ds = Inr st' \<Longrightarrow> P st \<Longrightarrow> P st'"
proof (induction ds arbitrary: st)
  case Nil
  then show ?case by simp
next
  case (Cons r ds)
  from Cons.prems obtain st1 where e: "eval_record flt pred st r = Inr st1"
    and r: "eval_records flt pred st1 ds = Inr st'"
    by (auto simp: ebind_eq_Inr)
  from step e Cons.prems(2) have "P st1"
    by (rule eval_record_invariant)
  with r show ?case by (rule Cons.IH)
qed

lemma overall_both [simp]: "overall (both u f st) = f (overall st)"
  by (simp add: both_def)

lemma user_both [simp]: "user_get (per_user (both u f st)) u = f (user_get (per_user st) u)"
  by (simp add: both_def)

lemma tally_fields [simp]:
  "total (tally err ag cmp ok s) = total s + 1"
  "agree (tally err ag cmp ok s) = agree s + (if ag then 1 else 0)"
  "abs_err (tally err ag cmp ok s) = abs_err s @ [err]"
  "decision_ok (tally err ag cmp ok s) = decision_ok s + (if ok then 1 else 0)"
  "decision_total (tally err ag cmp ok s) = decision_total s + (if cmp then 1 else 0)"
  by (simp_all add: tally_def)

lemma eval_entry_matched:
  assumes f: "py_get e ''lift'' JNull = Inr lift" "py_in lift MAIN = Inr True"
    "find_by_lift pl lift = Inr p" "truthy p"
    and ev: "eval_entry flt u pl st e = Inr st'"
  obtains e_w p_w lo hi e_d p_d where
      "weight_of flt e = Inr e_w" "weight_of flt p = Inr p_w"
      "range_of flt e e_w = Inr (lo, hi)"
      "py_get e ''decision'' JNull = Inr e_d" "py_get p ''decision'' JNull = Inr p_d"
      "st' = both u (tally \<bar>e_w - p_w\<bar> (in_range p_w lo hi) (e_d \<noteq> JNull \<and> p_d \<noteq> JNull)
         (e_d \<noteq> JNull \<and> p_d \<noteq> JNull \<and> py_eq e_d p_d)) st"
proof -
  from f ev obtain e_w p_w lh e_d p_d where
    w: "weight_of flt e = Inr e_w" "weight_of flt p = Inr p_w" "range_of flt e e_w = Inr lh"
    "py_get e ''decision'' JNull = Inr e_d" "py_get p ''decision'' JNull = Inr p_d"
    unfolding eval_entry_def by (auto simp: ebind_eq_Inr Let_def)
  obtain lo hi where lh: "lh = (lo, hi)" by (cases lh)
  with w have rg: "range_of flt e e_w = Inr (lo, hi)" by simp
  have "eval_entry flt u pl st e =
    Inr (both u (tally \<bar>e_w - p_w\<bar> (in_range p_w lo hi) (e_d \<noteq> JNull \<and> p_d \<noteq> JNull)
      (e_d \<noteq> JNull \<and> p_d \<noteq> JNull \<and> py_eq e_d p_d)) st)"
    by (rule eval_entry_evaluated [OF f w(1,2) rg w(4,5)])
  with ev have "st' = both u (tally \<bar>e_w - p_w\<bar> (in_range p_w lo hi)
      (e_d \<noteq> JNull \<and> p_d \<noteq> JNull)
      (e_d \<noteq> JNull \<and> p_d \<noteq> JNull \<and> py_eq e_d p_d)) st"
    by simp
  with w(1,2) rg w(4,5) show thesis by (rule that)
qed

lemma py_get_is_dict: "py_get x k d = Inr v \<Longrightarrow> is_dict x"
  by (cases x) (simp_all add: is_dict_def)

lemma weight_of_is_dict: "weight_of flt x = Inr w \<Longrightarrow> is_dict x"
  by (auto simp: weight_of_def ebind_eq_Inr dest: py_get_is_dict)

lemma range_of_given:
  assumes "py_get e ''acceptable_range_lb'' JNull = Inr (JArr [x, y])"
    and "py_float flt x = Inr lo" and "py_float flt y = Inr hi"
  shows "range_of flt e e_w = Inr (lo, hi)"
  using assms by (simp add: range_of_def py_or_def unpack2_def)

lemma range_of_fallback:
  assumes "py_get e ''acceptable_range_lb'' JNull = Inr r" and "\<not> truthy r"
  shows "range_of flt e e_w = Inr (e_w, e_w)"
  using assms by (simp add: range_of_def py_or_def unpack2_def)

subsection \<open>Agreement and decisions of an evaluated entry\<close>

text \<open>
  C1. For an evaluated entry (its lift is a main lift and the lift matcher found the
  predicted entry \<open>p\<close>), the agreement counters, overall and of the user, go up by one
  exactly when the predicted weight lies in \<open>[lo, hi]\<close>, both ends included, and stay as
  they are otherwise. The range is the two bounds of \<^verbatim>\<open>acceptable_range_lb\<close> when the
  expected entry gives them, and \<open>[e_w, e_w]\<close> when the field is absent (or null, or
  otherwise falsy); in that case agreement is the equality of the two weights.
\<close>

theorem agreement_iff_in_range:
  assumes f: "py_get e ''lift'' JNull = Inr lift" "py_in lift MAIN = Inr True"
    "find_by_lift pl lift = Inr p" "truthy p"
    and w: "weight_of flt e = Inr e_w" "weight_of flt p = Inr p_w"
    and r: "py_get e ''acceptable_range_lb'' JNull = Inr r"
    and rg: "r = JArr [x, y] \<and> py_float flt x = Inr lo \<and> py_float flt y = Inr hi
       \<or> \<not> truthy r \<and> lo = e_w \<and> hi = e_w"
  shows "\<exists>st'. eval_entry flt u pl st e = Inr st'
     \<and> agree (overall st') = agree (overall st) + (if lo \<le> p_w \<and> p_w \<le> hi then 1 else 0)
     \<and> agree (user_get (per_user st') u)
         = agree (user_get (per_user st) u) + (if lo \<le> p_w \<and> p_w \<le> hi then 1 else 0)
     \<and> (\<not> truthy r \<longrightarrow> (agree (overall st') = agree (overall st) + 1 \<longleftrightarrow> p_w = e_w))"
proof -
  from r rg have rng: "range_of flt e e_w = Inr (lo, hi)"
    by (auto simp: range_of_given range_of_fallback)
  from w(1) obtain e_d where ed: "py_get e ''decision'' JNull = Inr e_d"
    using py_get_dict [OF weight_of_is_dict] by blast
  from w(2) obtain p_d where pd: "py_get p ''decision'' JNull = Inr p_d"
    using py_get_dict [OF weight_of_is_dict] by blast
  have tr: "\<not> truthy r \<longrightarrow> lo = e_w \<and> hi = e_w"
    using rg by auto
  show ?thesis
    unfolding eval_entry_evaluated [OF f w rng ed pd] using tr
    by (auto simp: in_range_def)
qed

theorem agreement_iff_in_range_witness:
  "py_get ex_expected ''lift'' JNull = Inr (JStr ''squat'')
   \<and> py_in (JStr ''squat'') MAIN = Inr True
   \<and> find_by_lift (JArr [ex_predicted]) (JStr ''squat'') = Inr ex_predicted
   \<and> truthy ex_predicted
   \<and> weight_of no_float ex_expected = Inr 200
   \<and> weight_of no_float ex_predicted = Inr 210
   \<and> py_get ex_expected ''acceptable_range_lb'' JNull = Inr (JArr [JNum 190, JNum 210])
   \<and> py_float no_float (JNum 190) = Inr 190
   \<and> py_float no_float (JNum 210) = Inr 210
   \<and> (\<exists>st'. eval_entry no_float (HStr ''u1'') (JArr [ex_predicted]) state0 ex_expected = Inr st'
        \<and> agree (overall st') = 1 \<and> agree (user_get (per_user st') (HStr ''u1'')) = 1)
   \<and> py_get (ex_lift ''ohp'') ''lift'' JNull = Inr (JStr ''ohp'')
   \<and> py_in (JStr ''ohp'') MAIN = Inr True
   \<and> find_by_lift (JArr [ex_predicted_ohp]) (JStr ''ohp'') = Inr ex_predicted_ohp
   \<and> truthy ex_predicted_ohp
   \<and> weight_of no_float (ex_lift ''ohp'') = Inr 100
   \<and> weight_of no_float ex_predicted_ohp = Inr 105
   \<and> py_get (ex_lift ''ohp'') ''acceptable_range_lb'' JNull = Inr JNull
   \<and> \<not> truthy JNull
   \<and> (\<exists>st'. eval_entry no_float (HStr ''u1'') (JArr [ex_predicted_ohp]) state0 (ex_lift ''ohp'')
          = Inr st'
        \<and> agree (overall st') = 0 \<and> agree (user_get (per_user st') (HStr ''u1'')) = 0)"
proof -
  have h: "py_get ex_expected ''lift'' JNull = Inr (JStr ''squat'')"
    "py_in (JStr ''squat'') MAIN = Inr True"
    "find_by_lift (JArr [ex_predicted]) (JStr ''squat'') = Inr ex_predicted"
    "truthy ex_predicted"
    "weight_of no_float ex_expected = Inr 200"
    "weight_of no_float ex_predicted = Inr 210"
    "py_get ex_expected ''acceptable_range_lb'' JNull = Inr (JArr [JNum 190, JNum 210])"
    by (simp_all add: ex_expected_def ex_predicted_def py_in_def MAIN_def find_by_lift_def
        weight_of_def py_or_def)
  have g: "JArr [JNum 190, JNum 210] = JArr [JNum 190, JNum 210]
      \<and> py_float no_float (JNum 190) = Inr 190 \<and> py_float no_float (JNum 210) = Inr 210
    \<or> \<not> truthy (JArr [JNum 190, JNum 210]) \<and> 190 = (200::real) \<and> 210 = (200::real)"
    by simp
  have h': "py_get (ex_lift ''ohp'') ''lift'' JNull = Inr (JStr ''ohp'')"
    "py_in (JStr ''ohp'') MAIN = Inr True"
    "find_by_lift (JArr [ex_predicted_ohp]) (JStr ''ohp'') = Inr ex_predicted_ohp"
    "truthy ex_predicted_ohp"
    "weight_of no_float (ex_lift ''ohp'') = Inr 100"
    "weight_of no_float ex_predicted_ohp = Inr 105"
    "py_get (ex_lift ''ohp'') ''acceptable_range_lb'' JNull = Inr JNull"
    by (simp_all add: ex_lift_def ex_predicted_ohp_def py_in_def MAIN_def find_by_lift_def
        weight_of_def py_or_def)
  have g': "JNull = JArr [JNull, JNull]
      \<and> py_float no_float JNull = Inr 100 \<and> py_float no_float JNull = Inr 100
    \<or> \<not> truthy JNull \<and> 100 = (100::real) \<and> 100 = (100::real)"
    by simp
  have s0: "agree (overall state0) = 0" "agree (user_get (per_user state0) (HStr ''u1'')) = 0"
    by (simp_all add: state0_def stats0_def user_get_def)
  from agreement_iff_in_range [OF h g, of "HStr ''u1''" state0]
    agreement_iff_in_range [OF h' g', of "HStr ''u1''" state0] h h'
  show ?thesis
    by (auto simp: s0)
qed

text \<open>
  C4. For an evaluated entry, the decision-comparison counters (overall and of the user)
  go up by one exactly when neither \<^verbatim>\<open>decision\<close> is \<^verbatim>\<open>None\<close>, and the decision-match
  counters exactly when, in addition, the two decisions are equal. Whatever the
  decisions are, the entry counts in the totals and adds its error sample.
\<close>

theorem decision_counters:
  assumes f: "py_get e ''lift'' JNull = Inr lift" "py_in lift MAIN = Inr True"
    "find_by_lift pl lift = Inr p" "truthy p"
    and ev: "eval_entry flt u pl st e = Inr st'"
    and d: "py_get e ''decision'' JNull = Inr e_d" "py_get p ''decision'' JNull = Inr p_d"
  shows "decision_total (overall st')
       = decision_total (overall st) + (if e_d \<noteq> JNull \<and> p_d \<noteq> JNull then 1 else 0)
     \<and> decision_total (user_get (per_user st') u)
       = decision_total (user_get (per_user st) u)
         + (if e_d \<noteq> JNull \<and> p_d \<noteq> JNull then 1 else 0)
     \<and> decision_ok (overall st')
       = decision_ok (overall st)
         + (if e_d \<noteq> JNull \<and> p_d \<noteq> JNull \<and> py_eq e_d p_d then 1 else 0)
     \<and> decision_ok (user_get (per_user st') u)
       = decision_ok (user_get (per_user st) u)
         + (if e_d \<noteq> JNull \<and> p_d \<noteq> JNull \<and> py_eq e_d p_d then 1 else 0)
     \<and> total (overall st') = total (overall st) + 1
     \<and> total (user_get (per_user st') u) = total (user_get (per_user st) u) + 1
     \<and> length (abs_err (overall st')) = length (abs_err (overall st)) + 1
     \<and> length (abs_err (user_get (per_user st') u))
       = length (abs_err (user_get (per_user st) u)) + 1"
  using f ev
proof (cases rule: eval_entry_matched)
  case (1 e_w p_w lo hi e_d' p_d')
  with d have "e_d' = e_d" "p_d' = p_d" by simp_all
  with 1(6) show ?thesis by simp
qed


theorem decision_counters_witness:
  "py_get ex_expected ''lift'' JNull = Inr (JStr ''squat'')
   \<and> py_in (JStr ''squat'') MAIN = Inr True
   \<and> find_by_lift (JArr [ex_predicted]) (JStr ''squat'') = Inr ex_predicted
   \<and> truthy ex_predicted
   \<and> eval_entry no_float (HStr ''u1'') (JArr [ex_predicted]) state0 ex_expected
       = Inr \<lparr>overall = \<lparr>total = 1, agree = 1, abs_err = [10], decision_ok = 0, decision_total = 0\<rparr>,
              per_user = [(HStr ''u1'',
                \<lparr>total = 1, agree = 1, abs_err = [10], decision_ok = 0, decision_total = 0\<rparr>)]\<rparr>
   \<and> py_get ex_expected ''decision'' JNull = Inr (JStr ''increase'')
   \<and> py_get ex_predicted ''decision'' JNull = Inr JNull"
proof -
  have h: "py_get ex_expected ''lift'' JNull = Inr (JStr ''squat'')"
    "py_in (JStr ''squat'') MAIN = Inr True"
    "find_by_lift (JArr [ex_predicted]) (JStr ''squat'') = Inr ex_predicted"
    "truthy ex_predicted"
    by (simp_all add: ex_expected_def ex_predicted_def py_in_def MAIN_def find_by_lift_def)
  have d: "py_get ex_expected ''decision'' JNull = Inr (JStr ''increase'')"
    "py_get ex_predicted ''decision'' JNull = Inr JNull"
    by (simp_all add: ex_expected_def ex_predicted_def)
  have w: "weight_of no_float ex_expected = Inr 200" "weight_of no_float ex_predicted = Inr 210"
    "range_of no_float ex_expected 200 = Inr (190, 210)"
    by (simp_all add: ex_expected_def ex_predicted_def weight_of_def py_or_def range_of_def
        unpack2_def)
  have ev: "eval_entry no_float (HStr ''u1'') (JArr [ex_predicted]) state0 ex_expected
       = Inr \<lparr>overall = \<lparr>total = 1, agree = 1, abs_err = [10], decision_ok = 0, decision_total = 0\<rparr>,
              per_user = [(HStr ''u1'',
                \<lparr>total = 1, agree = 1, abs_err = [10], decision_ok = 0, decision_total = 0\<rparr>)]\<rparr>"
    unfolding eval_entry_evaluated [OF h w d]
    by (simp add: both_def tally_def state0_def stats0_def user_get_def in_range_def)
  from decision_counters [OF h ev d] h ev d show ?thesis
    by simp
qed

subsection \<open>The aggregates after a run\<close>

text \<open>A run over two records, of two users.\<close>

lemma ex_entry:
  "eval_entry no_float u (JArr [ex_predicted]) st ex_expected
     = Inr (both u (tally 10 True False False) st)"
proof -
  have h: "py_get ex_expected ''lift'' JNull = Inr (JStr ''squat'')"
    "py_in (JStr ''squat'') MAIN = Inr True"
    "find_by_lift (JArr [ex_predicted]) (JStr ''squat'') = Inr ex_predicted"
    "truthy ex_predicted"
    "weight_of no_float ex_expected = Inr 200" "weight_of no_float ex_predicted = Inr 210"
    "range_of no_float ex_expected 200 = Inr (190, 210)"
    "py_get ex_expected ''decision'' JNull = Inr (JStr ''increase'')"
    "py_get ex_predicted ''decision'' JNull = Inr JNull"
    by (simp_all add: ex_expected_def ex_predicted_def py_in_def MAIN_def find_by_lift_def
        weight_of_def py_or_def range_of_def unpack2_def)
  show ?thesis
    unfolding eval_entry_evaluated [OF h] by (simp add: in_range_def)
qed

lemma ex_eval_record:
  "eval_record no_float ex_index st (ex_record ''u1'' (JArr [ex_expected]))
     = Inr (both (HStr ''u1'') (tally 10 True False False) st)"
  "eval_record no_float ex_index st (ex_record ''u2'' (JArr [ex_expected]))
     = Inr (both (HStr ''u2'') (tally 10 True False False) st)"
  by (simp_all add: eval_record_def expected_list_def ex_record_def key_def hash_key_def
      ex_index_def ex_prediction_def ex_entry)

lemma ex_run:
  "eval_records no_float ex_index state0
     [ex_record ''u2'' (JArr [ex_expected]), ex_record ''u1'' (JArr [ex_expected])] = Inr ex_final"
  by (simp add: ex_eval_record both_def tally_def state0_def stats0_def user_get_def
      ex_final_def ex_stats_def)

lemma sum_update:
  fixes m :: "stats \<Rightarrow> 'a::comm_monoid_add"
  assumes "m stats0 = 0" and "\<And>s. m (f s) = m s + c"
  shows "sum_list (map (\<lambda>us. m (snd us)) (AList.update u (f (user_get pu u)) pu))
       = sum_list (map (\<lambda>us. m (snd us)) pu) + c"
proof (induction pu)
  case Nil
  then show ?case by (simp add: user_get_def assms)
next
  case (Cons p pu)
  show ?case
  proof (cases "fst p = u")
    case True
    then show ?thesis
      by (simp add: user_get_def assms ac_simps)
  next
    case False
    then have "user_get (p # pu) u = user_get pu u"
      by (simp add: user_get_def)
    with False Cons show ?thesis
      by (simp add: ac_simps)
  qed
qed

lemma sums_agree_both:
  assumes "sums_agree st"
  shows "sums_agree (both u (tally err ag cmp ok) st)"
proof -
  have t: "sum_list (map (\<lambda>us. total (snd us))
        (AList.update u (tally err ag cmp ok (user_get (per_user st) u)) (per_user st)))
      = sum_list (map (\<lambda>us. total (snd us)) (per_user st)) + 1"
    by (rule sum_update) (simp_all add: stats0_def)
  have a: "sum_list (map (\<lambda>us. agree (snd us))
        (AList.update u (tally err ag cmp ok (user_get (per_user st) u)) (per_user st)))
      = sum_list (map (\<lambda>us. agree (snd us)) (per_user st)) + (if ag then 1 else 0)"
    by (rule sum_update) (simp_all add: stats0_def)
  have dt: "sum_list (map (\<lambda>us. decision_total (snd us))
        (AList.update u (tally err ag cmp ok (user_get (per_user st) u)) (per_user st)))
      = sum_list (map (\<lambda>us. decision_total (snd us)) (per_user st)) + (if cmp then 1 else 0)"
    by (rule sum_update) (simp_all add: stats0_def)
  have d: "sum_list (map (\<lambda>us. decision_ok (snd us))
        (AList.update u (tally err ag cmp ok (user_get (per_user st) u)) (per_user st)))
      = sum_list (map (\<lambda>us. decision_ok (snd us)) (per_user st)) + (if ok then 1 else 0)"
    by (rule sum_update) (simp_all add: stats0_def)
  have e: "sum_list (map (\<lambda>us. mset (abs_err (snd us)))
        (AList.update u (tally err ag cmp ok (user_get (per_user st) u)) (per_user st)))
      = sum_list (map (\<lambda>us. mset (abs_err (snd us))) (per_user st)) + {#err#}"
    by (rule sum_update) (simp_all add: stats0_def)
  have k: "distinct (map fst (per_user st)) \<Longrightarrow>
     distinct (map fst (AList.update u (tally err ag cmp ok (user_get (per_user st) u)) (per_user st)))"
    by (rule distinct_update)
  from assms show ?thesis
    unfolding sums_agree_def both_def
    by (simp add: t a dt d e k mset_concat comp_def)
qed

lemma sums_agree_state0: "sums_agree state0"
  by (simp add: sums_agree_def state0_def stats0_def)

text \<open>
  C8. After the evaluation loop has run over a dataset, from the empty aggregates, the
  per-user totals add up to the overall total, and so do the agreement counts, the
  decision-comparison counts and the decision-match counts; the error samples of all users
  are, as a multiset, the overall error samples; every user has one entry.
\<close>

theorem per_user_sums:
  assumes "eval_records flt pred state0 ds = Inr st"
  shows "sum_list (map (\<lambda>us. total (snd us)) (per_user st)) = total (overall st)
      \<and> sum_list (map (\<lambda>us. agree (snd us)) (per_user st)) = agree (overall st)
      \<and> sum_list (map (\<lambda>us. decision_total (snd us)) (per_user st)) = decision_total (overall st)
      \<and> sum_list (map (\<lambda>us. decision_ok (snd us)) (per_user st)) = decision_ok (overall st)
      \<and> mset (concat (map (\<lambda>us. abs_err (snd us)) (per_user st))) = mset (abs_err (overall st))
      \<and> distinct (map fst (per_user st))"
proof -
  have "sums_agree st"
    using sums_agree_both assms sums_agree_state0
    by (rule eval_records_invariant [where P = sums_agree])
  then show ?thesis by (simp add: sums_agree_def)
qed

theorem per_user_sums_witness:
  "eval_records no_float ex_index state0
     [ex_record ''u2'' (JArr [ex_expected]), ex_record ''u1'' (JArr [ex_expected])] = Inr ex_final
   \<and> sum_list (map (\<lambda>us. total (snd us)) (per_user ex_final)) = 2
   \<and> total (overall ex_final) = 2
   \<and> mset (concat (map (\<lambda>us. abs_err (snd us)) (per_user ex_final))) = {#10, 10#}"
  using per_user_sums [OF ex_run] ex_run
  by (simp add: ex_final_def ex_stats_def)

subsection \<open>The predictions index\<close>

lemma index_loop_step:
  "index_loop pred (r # pr) = ebind (record_key r) (\<lambda>hk. index_loop (AList.update hk r pred) pr)"
  by (cases "key r") (simp_all add: record_key_def)

lemma index_loop_last:
  "index_loop pred pr = Inr pred' \<Longrightarrow>
   map_of pred' k = (case last_with_key k pr of None \<Rightarrow> map_of pred k | Some r \<Rightarrow> Some r)"
proof (induction pr arbitrary: pred)
  case Nil
  then show ?case by (simp add: last_with_key_def)
next
  case (Cons r pr)
  from Cons.prems obtain hk where hk: "record_key r = Inr hk"
    and rest: "index_loop (AList.update hk r pred) pr = Inr pred'"
    unfolding index_loop_step by (auto simp: ebind_eq_Inr)
  from Cons.IH [OF rest] hk show ?case
    by (auto simp: last_with_key_def update_conv' split: list.splits)
qed

lemma index_loop_total:
  "list_all has_key pr \<Longrightarrow> \<exists>pred'. index_loop pred pr = Inr pred'"
proof (induction pr arbitrary: pred)
  case Nil
  then show ?case by simp
next
  case (Cons r pr)
  then obtain hk where "record_key r = Inr hk"
    by (auto simp: has_key_def split: sum.splits)
  with Cons show ?case
    unfolding index_loop_step by simp
qed

text \<open>
  C5. When every prediction record has a hashable identity key, the index is built, and it
  maps each key to the last record in file order that bears it: of two predictions with one
  key the later replaces the earlier. A key no record bears is not in the index.
\<close>

theorem index_last_wins:
  assumes "list_all has_key pr"
  shows "\<exists>pred. index_predictions pr = Inr pred \<and> (\<forall>k. map_of pred k = last_with_key k pr)"
proof -
  from assms obtain pred where p: "index_loop [] pr = Inr pred"
    using index_loop_total by blast
  have "map_of pred k = last_with_key k pr" for k
    using index_loop_last [OF p, of k] by (simp split: option.splits)
  with p show ?thesis
    by (simp add: index_predictions_def)
qed

theorem index_last_wins_witness:
  "list_all has_key
     [ex_prediction ''u1'' (JArr []), ex_prediction ''u2'' (JArr []),
      ex_prediction ''u1'' (JArr [ex_predicted])]
   \<and> (\<exists>pred. index_predictions
        [ex_prediction ''u1'' (JArr []), ex_prediction ''u2'' (JArr []),
         ex_prediction ''u1'' (JArr [ex_predicted])] = Inr pred
      \<and> map_of pred (HStr ''u1'', HStr ''2024-01-01'', HStr ''A'')
          = Some (ex_prediction ''u1'' (JArr [ex_predicted])))"
proof -
  have k: "record_key (ex_prediction u x) = Inr (HStr u, HStr ''2024-01-01'', HStr ''A'')" for u x
    by (simp add: record_key_def key_def hash_key_def ex_prediction_def)
  have h: "list_all has_key
     [ex_prediction ''u1'' (JArr []), ex_prediction ''u2'' (JArr []),
      ex_prediction ''u1'' (JArr [ex_predicted])]"
    by (simp add: has_key_def k)
  from index_last_wins [OF h] obtain pred where
    "index_predictions
        [ex_prediction ''u1'' (JArr []), ex_prediction ''u2'' (JArr []),
         ex_prediction ''u1'' (JArr [ex_predicted])] = Inr pred"
    and "map_of pred (HStr ''u1'', HStr ''2024-01-01'', HStr ''A'')
       = last_with_key (HStr ''u1'', HStr ''2024-01-01'', HStr ''A'')
          [ex_prediction ''u1'' (JArr []), ex_prediction ''u2'' (JArr []),
           ex_prediction ''u1'' (JArr [ex_predicted])]"
    by blast
  with h show ?thesis
    by (simp add: last_with_key_def k)
qed

subsection \<open>Records that are skipped\<close>

lemma eval_record_skip:
  assumes "expected_list r = Inr xl"
    and "\<not> truthy xl \<or> record_key r = Inr k \<and> map_of pred k = None"
  shows "eval_record flt pred st r = Inr st"
proof (cases "truthy xl")
  case False
  with assms(1) show ?thesis by (simp add: eval_record_def)
next
  case True
  with assms(2) have "record_key r = Inr k" and n: "map_of pred k = None" by simp_all
  then obtain k0 where "key r = Inr k0" "hash_key k0 = Inr k"
    by (auto simp: record_key_def ebind_eq_Inr)
  with assms(1) n show ?thesis by (simp add: eval_record_def)
qed

lemma eval_records_skip:
  assumes "\<And>st. eval_record flt pred st r = Inr st"
  shows "eval_records flt pred st (ds1 @ r # ds2) = eval_records flt pred st (ds1 @ ds2)"
  by (induction ds1 arbitrary: st) (simp_all add: assms)

text \<open>
  C2, as the code has it. When the lookup of the expected prescription list does not
  raise (the record is a dict and its \<^verbatim>\<open>expected\<close>, when present, is a dict), a dataset
  record whose list is absent or empty (falsy), or whose identity key can be built and is not
  in the predictions index, leaves the aggregates as they are: every counter and every
  error-sample sequence, overall and per user, and the set of users. A run over a dataset
  gives the same result with the record and without it.
\<close>

theorem skipped_record:
  assumes "expected_list r = Inr xl"
    and "\<not> truthy xl \<or> record_key r = Inr k \<and> map_of pred k = None"
  shows "eval_record flt pred st r = Inr st
     \<and> eval_records flt pred st0 (ds1 @ r # ds2) = eval_records flt pred st0 (ds1 @ ds2)"
  using eval_record_skip [OF assms] eval_records_skip [of flt pred r]
  by simp

theorem skipped_record_witness:
  "expected_list (ex_record ''u3'' (JArr [ex_expected])) = Inr (JArr [ex_expected])
   \<and> record_key (ex_record ''u3'' (JArr [ex_expected]))
       = Inr (HStr ''u3'', HStr ''2024-01-01'', HStr ''A'')
   \<and> map_of ex_index (HStr ''u3'', HStr ''2024-01-01'', HStr ''A'') = None
   \<and> eval_record no_float ex_index ex_final (ex_record ''u3'' (JArr [ex_expected])) = Inr ex_final
   \<and> eval_records no_float ex_index state0
       ([ex_record ''u2'' (JArr [ex_expected])] @ ex_record ''u3'' (JArr [ex_expected])
          # [ex_record ''u1'' (JArr [ex_expected])]) = Inr ex_final
   \<and> expected_list (ex_record ''u1'' (JArr [])) = Inr (JArr [])
   \<and> eval_record no_float ex_index ex_final (ex_record ''u1'' (JArr [])) = Inr ex_final
   \<and> expected_list (JObj [(''user_id'', JStr ''u1'')]) = Inr JNull
   \<and> eval_record no_float ex_index ex_final (JObj [(''user_id'', JStr ''u1'')]) = Inr ex_final"
proof -
  have x: "expected_list (ex_record ''u3'' (JArr [ex_expected])) = Inr (JArr [ex_expected])"
    by (simp add: expected_list_def ex_record_def)
  have k: "record_key (ex_record ''u3'' (JArr [ex_expected]))
       = Inr (HStr ''u3'', HStr ''2024-01-01'', HStr ''A'')"
    by (simp add: record_key_def key_def hash_key_def ex_record_def)
  have n: "map_of ex_index (HStr ''u3'', HStr ''2024-01-01'', HStr ''A'') = None"
    by (simp add: ex_index_def)
  have a: "\<not> truthy (JArr [ex_expected])
     \<or> record_key (ex_record ''u3'' (JArr [ex_expected]))
         = Inr (HStr ''u3'', HStr ''2024-01-01'', HStr ''A'')
       \<and> map_of ex_index (HStr ''u3'', HStr ''2024-01-01'', HStr ''A'') = None"
    using k n by simp
  have y: "expected_list (ex_record ''u1'' (JArr [])) = Inr (JArr [])"
    by (simp add: expected_list_def ex_record_def)
  have b: "\<not> truthy (JArr [])
     \<or> record_key (ex_record ''u1'' (JArr [])) = Inr (HStr ''u1'', HStr ''2024-01-01'', HStr ''A'')
       \<and> map_of ex_index (HStr ''u1'', HStr ''2024-01-01'', HStr ''A'') = None"
    by simp
  have z: "expected_list (JObj [(''user_id'', JStr ''u1'')]) = Inr JNull"
    by (simp add: expected_list_def)
  have c: "\<not> truthy JNull
     \<or> record_key (JObj [(''user_id'', JStr ''u1'')])
         = Inr (HStr ''u1'', HStr ''2024-01-01'', HStr ''A'')
       \<and> map_of ex_index (HStr ''u1'', HStr ''2024-01-01'', HStr ''A'') = None"
    by simp
  from skipped_record [OF x a, of no_float ex_final state0
      "[ex_record ''u2'' (JArr [ex_expected])]" "[ex_record ''u1'' (JArr [ex_expected])]"]
    skipped_record [OF y b, of no_float ex_final state0 "[]" "[]"]
    skipped_record [OF z c, of no_float ex_final state0 "[]" "[]"] x k n y z ex_run
  show ?thesis by simp
qed

text \<open>
  C2, as the claim words it, fails: a record with \<^verbatim>\<open>"expected": null\<close> has no expected
  list and its identity key is not in the index, yet the lookup of the list raises
  \<^verbatim>\<open>AttributeError\<close> (\<^verbatim>\<open>r.get("expected", {})\<close> is \<^verbatim>\<open>None\<close>, which has no
  \<^verbatim>\<open>get\<close>). The record is not skipped: the run that returns the aggregates without
  it ends in the exception with it.
\<close>

theorem skipped_record_counterexample:
  "record_key ex_null_record = Inr (HStr ''u3'', HStr ''2024-01-01'', HStr ''A'')
   \<and> map_of ex_index (HStr ''u3'', HStr ''2024-01-01'', HStr ''A'') = None
   \<and> py_get ex_null_record ''expected'' (JObj []) = Inr JNull
   \<and> expected_list ex_null_record = Inl AttributeError
   \<and> eval_record no_float ex_index state0 ex_null_record = Inl AttributeError
   \<and> eval_records no_float ex_index state0
       [ex_record ''u2'' (JArr [ex_expected]), ex_null_record,
        ex_record ''u1'' (JArr [ex_expected])] = Inl AttributeError
   \<and> eval_records no_float ex_index state0
       [ex_record ''u2'' (JArr [ex_expected]), ex_record ''u1'' (JArr [ex_expected])]
       = Inr ex_final"
proof -
  have x: "expected_list ex_null_record = Inl AttributeError"
    by (simp add: expected_list_def ex_null_record_def)
  then have e: "eval_record no_float ex_index st ex_null_record = Inl AttributeError" for st
    by (simp add: eval_record_def)
  have k: "record_key ex_null_record = Inr (HStr ''u3'', HStr ''2024-01-01'', HStr ''A'')"
    by (simp add: record_key_def key_def hash_key_def ex_null_record_def)
  have n: "map_of ex_index (HStr ''u3'', HStr ''2024-01-01'', HStr ''A'') = None"
    by (simp add: ex_index_def)
  have g: "py_get ex_null_record ''expected'' (JObj []) = Inr JNull"
    by (simp add: ex_null_record_def)
  have r: "eval_records no_float ex_index state0
       [ex_record ''u2'' (JArr [ex_expected]), ex_null_record,
        ex_record ''u1'' (JArr [ex_expected])] = Inl AttributeError"
    by (simp add: ex_eval_record e)
  from x e k n g r ex_run show ?thesis
    by simp
qed

subsection \<open>The main lifts\<close>

lemma py_in_MAIN:
  "py_in (JStr s) MAIN = Inr (s \<in> {''squat'', ''bench'', ''deadlift'', ''ohp''})"
  by (auto simp: py_in_def MAIN_def)

text \<open>
  C3, as the code has it. The lifts scored are the four strings of \<^const>\<open>MAIN\<close>:
  \<^verbatim>\<open>squat\<close>, \<^verbatim>\<open>bench\<close>, \<^verbatim>\<open>deadlift\<close> and \<^verbatim>\<open>ohp\<close>. An expected entry whose lift is one
  of them is counted as soon as the lift matcher finds a predicted entry (and the weights
  can be read); an entry whose lift is any other string leaves the aggregates as they are.
\<close>

theorem main_lift_strings:
  assumes "py_get e ''lift'' JNull = Inr (JStr s)"
  shows "py_in (JStr s) MAIN = Inr (s \<in> {''squat'', ''bench'', ''deadlift'', ''ohp''})
     \<and> (s \<notin> {''squat'', ''bench'', ''deadlift'', ''ohp''} \<longrightarrow> eval_entry flt u pl st e = Inr st)
     \<and> (s \<in> {''squat'', ''bench'', ''deadlift'', ''ohp''}
          \<and> find_by_lift pl (JStr s) = Inr p \<and> truthy p
          \<and> eval_entry flt u pl st e = Inr st'
        \<longrightarrow> total (overall st') = total (overall st) + 1
          \<and> total (user_get (per_user st') u) = total (user_get (per_user st) u) + 1)"
proof (intro conjI impI)
  show "py_in (JStr s) MAIN = Inr (s \<in> {''squat'', ''bench'', ''deadlift'', ''ohp''})"
    by (rule py_in_MAIN)
next
  assume "s \<notin> {''squat'', ''bench'', ''deadlift'', ''ohp''}"
  with assms show "eval_entry flt u pl st e = Inr st"
    by (simp add: eval_entry_def py_in_MAIN)
next
  assume a: "s \<in> {''squat'', ''bench'', ''deadlift'', ''ohp''}
      \<and> find_by_lift pl (JStr s) = Inr p \<and> truthy p \<and> eval_entry flt u pl st e = Inr st'"
  then have m: "py_in (JStr s) MAIN = Inr True"
    by (simp add: py_in_MAIN)
  from a have f: "find_by_lift pl (JStr s) = Inr p" "truthy p"
    and ev: "eval_entry flt u pl st e = Inr st'" by simp_all
  from assms m f ev
  show "total (overall st') = total (overall st) + 1"
    by (cases rule: eval_entry_matched) simp
  from assms m f ev
  show "total (user_get (per_user st') u) = total (user_get (per_user st) u) + 1"
    by (cases rule: eval_entry_matched) simp
qed

lemma ex_lift_ohp:
  "eval_entry no_float (HStr ''u1'') (JArr [ex_lift ''ohp'']) state0 (ex_lift ''ohp'')
     = Inr (both (HStr ''u1'') (tally 0 True False False) state0)"
proof -
  have h: "py_get (ex_lift ''ohp'') ''lift'' JNull = Inr (JStr ''ohp'')"
    "py_in (JStr ''ohp'') MAIN = Inr True"
    "find_by_lift (JArr [ex_lift ''ohp'']) (JStr ''ohp'') = Inr (ex_lift ''ohp'')"
    "truthy (ex_lift ''ohp'')"
    "weight_of no_float (ex_lift ''ohp'') = Inr 100" "weight_of no_float (ex_lift ''ohp'') = Inr 100"
    "range_of no_float (ex_lift ''ohp'') 100 = Inr (100, 100)"
    "py_get (ex_lift ''ohp'') ''decision'' JNull = Inr JNull"
    "py_get (ex_lift ''ohp'') ''decision'' JNull = Inr JNull"
    by (simp_all add: ex_lift_def py_in_def MAIN_def find_by_lift_def
        weight_of_def py_or_def range_of_def unpack2_def)
  show ?thesis
    unfolding eval_entry_evaluated [OF h] by (simp add: in_range_def)
qed

theorem main_lift_strings_witness:
  "py_get (ex_lift ''ohp'') ''lift'' JNull = Inr (JStr ''ohp'')
   \<and> ''ohp'' \<in> {''squat'', ''bench'', ''deadlift'', ''ohp''}
   \<and> find_by_lift (JArr [ex_lift ''ohp'']) (JStr ''ohp'') = Inr (ex_lift ''ohp'')
   \<and> truthy (ex_lift ''ohp'')
   \<and> eval_entry no_float (HStr ''u1'') (JArr [ex_lift ''ohp'']) state0 (ex_lift ''ohp'')
       = Inr (both (HStr ''u1'') (tally 0 True False False) state0)
   \<and> total (overall (both (HStr ''u1'') (tally 0 True False False) state0)) = 1
   \<and> py_get (ex_lift ''overhead press'') ''lift'' JNull = Inr (JStr ''overhead press'')
   \<and> ''overhead press'' \<notin> {''squat'', ''bench'', ''deadlift'', ''ohp''}
   \<and> eval_entry no_float (HStr ''u1'') (JArr [ex_lift ''overhead press'']) state0
        (ex_lift ''overhead press'') = Inr state0"
proof -
  have h: "py_get (ex_lift ''ohp'') ''lift'' JNull = Inr (JStr ''ohp'')"
    "find_by_lift (JArr [ex_lift ''ohp'']) (JStr ''ohp'') = Inr (ex_lift ''ohp'')"
    "truthy (ex_lift ''ohp'')"
    "py_get (ex_lift ''overhead press'') ''lift'' JNull = Inr (JStr ''overhead press'')"
    by (simp_all add: ex_lift_def find_by_lift_def)
  from main_lift_strings [OF h(1), of no_float "HStr ''u1''" "JArr [ex_lift ''ohp'']" state0
      "ex_lift ''ohp''" "both (HStr ''u1'') (tally 0 True False False) state0"]
    main_lift_strings [OF h(4), of no_float "HStr ''u1''" "JArr [ex_lift ''overhead press'']" state0]
    h ex_lift_ohp
  show ?thesis
    by (simp add: state0_def stats0_def)
qed

text \<open>
  C3, as the claim words it, fails: entries for the lifts \<^verbatim>\<open>bench press\<close> and
  \<^verbatim>\<open>overhead press\<close> are ignored although the predictions hold an entry for the same
  lift, and an entry for the string \<^verbatim>\<open>ohp\<close> is evaluated.
\<close>

theorem main_lift_names_counterexample:
  "eval_entry no_float (HStr ''u1'') (JArr [ex_lift ''bench press'']) state0
      (ex_lift ''bench press'') = Inr state0
   \<and> find_by_lift (JArr [ex_lift ''bench press'']) (JStr ''bench press'')
       = Inr (ex_lift ''bench press'')
   \<and> eval_entry no_float (HStr ''u1'') (JArr [ex_lift ''overhead press'']) state0
      (ex_lift ''overhead press'') = Inr state0
   \<and> find_by_lift (JArr [ex_lift ''overhead press'']) (JStr ''overhead press'')
       = Inr (ex_lift ''overhead press'')
   \<and> eval_entry no_float (HStr ''u1'') (JArr [ex_lift ''ohp'']) state0 (ex_lift ''ohp'')
       \<noteq> Inr state0"
proof -
  have "both (HStr ''u1'') (tally 0 True False False) state0 \<noteq> state0"
    by (simp add: both_def state0_def)
  then show ?thesis
    by (simp add: ex_lift_ohp)
      (simp add: eval_entry_def ex_lift_def py_in_def MAIN_def find_by_lift_def)
qed

subsection \<open>The report\<close>

lemma rate_value: "rate a t = Inr (Num (if t = 0 then 0 else real a / real t))"
  by (simp add: rate_def py_div_def)

lemma mean_abs_err_value:
  "mean_abs_err xs = Inr (if xs = [] then NaN else Num (sum_list xs / real (length xs)))"
  by (simp add: mean_abs_err_def py_div_def)

lemma user_line_value:
  "user_line (u, s) =
     Inr (UserLine u
       (Num (if total s = 0 then 0 else real (agree s) / real (total s)))
       (if abs_err s = [] then NaN else Num (sum_list (abs_err s) / real (length (abs_err s))))
       (Num (if decision_total s = 0 then 0 else real (decision_ok s) / real (decision_total s)))
       (total s))"
  by (simp add: user_line_def rate_value mean_abs_err_value)

lemma key_lt_error: "key_lt a b = Inl e \<Longrightarrow> e = TypeError"
  by (cases a; cases b) simp_all

lemma insert_item_error: "insert_item x ys = Inl e \<Longrightarrow> e = TypeError"
proof (induction ys)
  case Nil
  then show ?case by simp
next
  case (Cons y ys)
  show ?case
  proof (cases "key_lt (fst x) (fst y)")
    case (Inl e')
    with Cons.prems show ?thesis by (simp add: key_lt_error)
  next
    case (Inr b)
    with Cons show ?thesis
      by (cases "insert_item x ys") (auto split: if_splits)
  qed
qed

lemma sorted_items_error: "sorted_items xs = Inl e \<Longrightarrow> e = TypeError"
proof (induction xs)
  case Nil
  then show ?case by simp
next
  case (Cons x xs)
  then show ?case
    by (cases "sorted_items xs") (auto dest: insert_item_error)
qed

lemma prints_Inr: "prints (Inr x # ls) = (x # fst (prints ls), snd (prints ls))"
  by (simp split: prod.splits)

lemma prints_user_lines: "snd (prints (map user_line items)) = None"
proof (induction items)
  case Nil
  then show ?case by simp
next
  case (Cons x items)
  obtain u s where "x = (u, s)" by (cases x)
  with Cons show ?case
    by (simp add: user_line_value prints_Inr del: prints.simps)
qed

text \<open>
  C7. The reporter never divides by zero. A rate over a zero total is 0, the mean of no
  error sample is not-a-number; every rate and mean is a value, never
  \<^verbatim>\<open>ZeroDivisionError\<close>; the line of a user is printed with the same guards; the report
  does not end in \<^verbatim>\<open>ZeroDivisionError\<close> and always starts with the three overall lines,
  guarded, and the per-user header.
\<close>

theorem report_guards:
  "rate a 0 = Inr (Num 0)
   \<and> mean_abs_err [] = Inr NaN
   \<and> rate a t = Inr (Num (if t = 0 then 0 else real a / real t))
   \<and> mean_abs_err xs = Inr (if xs = [] then NaN else Num (sum_list xs / real (length xs)))
   \<and> user_line (u, s) =
       Inr (UserLine u
         (Num (if total s = 0 then 0 else real (agree s) / real (total s)))
         (if abs_err s = [] then NaN else Num (sum_list (abs_err s) / real (length (abs_err s))))
         (Num (if decision_total s = 0 then 0 else real (decision_ok s) / real (decision_total s)))
         (total s))
   \<and> snd (report st) \<noteq> Some ZeroDivisionError
   \<and> (\<exists>users. fst (report st) =
        [Agreement (agree (overall st)) (total (overall st))
           (Num (if total (overall st) = 0 then 0
                 else real (agree (overall st)) / real (total (overall st)))),
         MAE (if abs_err (overall st) = [] then NaN
              else Num (sum_list (abs_err (overall st)) / real (length (abs_err (overall st))))),
         DecisionAccuracy (decision_ok (overall st)) (decision_total (overall st))
           (Num (if decision_total (overall st) = 0 then 0
                 else real (decision_ok (overall st)) / real (decision_total (overall st)))),
         Text ''Per-user:''] @ users)"
proof -
  have e: "snd (report st) \<noteq> Some ZeroDivisionError"
  proof (cases "sorted_items (per_user st)")
    case (Inl e)
    then have "e = TypeError" by (rule sorted_items_error)
    with Inl show ?thesis
      by (simp add: report_def Let_def rate_value mean_abs_err_value prints_Inr
          del: prints.simps) simp
  next
    case (Inr items)
    with prints_user_lines [of items] show ?thesis
      by (simp add: report_def Let_def rate_value mean_abs_err_value prints_Inr
          del: prints.simps)
  qed
  have l: "\<exists>users. fst (report st) =
        [Agreement (agree (overall st)) (total (overall st))
           (Num (if total (overall st) = 0 then 0
                 else real (agree (overall st)) / real (total (overall st)))),
         MAE (if abs_err (overall st) = [] then NaN
              else Num (sum_list (abs_err (overall st)) / real (length (abs_err (overall st))))),
         DecisionAccuracy (decision_ok (overall st)) (decision_total (overall st))
           (Num (if decision_total (overall st) = 0 then 0
                 else real (decision_ok (overall st)) / real (decision_total (overall st)))),
         Text ''Per-user:''] @ users"
    by (cases "sorted_items (per_user st)")
      (simp_all add: report_def Let_def rate_value mean_abs_err_value prints_Inr
        del: prints.simps)
  from e l show ?thesis
    by (simp add: rate_value mean_abs_err_value user_line_value)
qed

theorem report_guards_witness:
  "report state0 =
     ([Agreement 0 0 (Num 0), MAE NaN, DecisionAccuracy 0 0 (Num 0), Text ''Per-user:''], None)
   \<and> user_line (HStr ''u1'', stats0) = Inr (UserLine (HStr ''u1'') (Num 0) NaN (Num 0) 0)
   \<and> rate 3 0 = Inr (Num 0)
   \<and> mean_abs_err [] = Inr NaN"
  using report_guards [of 3 0 "[]" "HStr ''u1''" stats0 state0]
  by (simp add: report_def state0_def stats0_def Let_def mean_abs_err_def rate_def)

subsection \<open>The per-user lines\<close>

lemma prints_Inl: "prints (Inl e # ls) = ([], Some e)"
  by simp

lemmas prints_steps = prints_Inl prints_Inr

lemma user_line_line_of: "user_line us = Inr (line_of us)"
  by (cases us) (simp add: user_line_value line_of_def)

lemma prints_user_lines_fst: "fst (prints (map user_line items)) = map line_of items"
  by (induction items) (simp_all add: user_line_line_of prints_steps del: prints.simps(2))

lemma insert_item_set: "insert_item x ys = Inr zs \<Longrightarrow> set zs = insert x (set ys)"
proof (induction ys arbitrary: zs)
  case Nil
  then show ?case by auto
next
  case (Cons y ys)
  then show ?case
    by (auto simp: ebind_eq_Inr split: if_splits)
qed

lemma sorted_items_set: "sorted_items xs = Inr ys \<Longrightarrow> set ys = set xs"
proof (induction xs arbitrary: ys)
  case Nil
  then show ?case by simp
next
  case (Cons x xs)
  then show ?case
    by (auto simp: ebind_eq_Inr dest!: insert_item_set)
qed

lemma report_user_lines:
  assumes "UserLine u a m d n \<in> set (fst (report st))"
  shows "\<exists>s. (u, s) \<in> set (per_user st) \<and> UserLine u a m d n = line_of (u, s)"
proof (cases "sorted_items (per_user st)")
  case (Inl e)
  with assms show ?thesis
    by (simp add: report_def Let_def rate_value mean_abs_err_value prints_steps
        del: prints.simps(2))
next
  case (Inr items)
  with assms have "UserLine u a m d n \<in> line_of ` set items"
    by (simp add: report_def Let_def rate_value mean_abs_err_value prints_steps
        prints_user_lines_fst del: prints.simps(2))
  then obtain us where "us \<in> set items" "UserLine u a m d n = line_of us"
    by blast
  moreover from Inr have "set items = set (per_user st)"
    by (rule sorted_items_set)
  ultimately have "(fst us, snd us) \<in> set (per_user st)"
    and "UserLine u a m d n = line_of (fst us, snd us)"
    by simp_all
  moreover from this(2) have "fst us = u"
    by (simp add: line_of_def)
  ultimately show ?thesis
    by auto
qed

lemma set_update_subset: "set (AList.update k v al) \<subseteq> insert (k, v) (set al)"
  by (induction al) auto

lemma users_counted_both:
  assumes "users_counted st"
  shows "users_counted (both u (tally err ag cmp ok) st)"
  using assms set_update_subset [of u "tally err ag cmp ok (user_get (per_user st) u)" "per_user st"]
  unfolding users_counted_def both_def list_all_iff
  by auto

text \<open>
  C10. After the evaluation loop has run over a dataset, every user in the per-user dict
  has a total of at least 1, and the guard of its agreement rate is not taken: the rate
  is the quotient. Every per-user line of the report is the line of such a user, so it
  shows \<open>n \<ge> 1\<close> and the quotient.
\<close>

theorem per_user_total_positive:
  assumes "eval_records flt pred state0 ds = Inr st"
  shows "((u, s) \<in> set (per_user st) \<longrightarrow>
            1 \<le> total s
          \<and> rate (agree s) (total s) = Inr (Num (real (agree s) / real (total s))))
     \<and> (UserLine u' a m d n \<in> set (fst (report st)) \<longrightarrow>
            1 \<le> n
          \<and> (\<exists>s'. (u', s') \<in> set (per_user st) \<and> n = total s'
                \<and> a = Num (real (agree s') / real (total s'))))"
proof -
  have "users_counted state0"
    by (simp add: users_counted_def state0_def)
  with users_counted_both assms have "users_counted st"
    by (rule eval_records_invariant [where P = users_counted])
  then have t: "1 \<le> total x" if "(v, x) \<in> set (per_user st)" for v x
    using that by (auto simp: users_counted_def list_all_iff)
  have "1 \<le> n \<and> (\<exists>s'. (u', s') \<in> set (per_user st) \<and> n = total s'
      \<and> a = Num (real (agree s') / real (total s')))"
    if "UserLine u' a m d n \<in> set (fst (report st))"
  proof -
    from that obtain s' where s': "(u', s') \<in> set (per_user st)"
      and l: "UserLine u' a m d n = line_of (u', s')"
      using report_user_lines by blast
    from t [OF s'] l s' show ?thesis
      by (auto simp: line_of_def)
  qed
  with t show ?thesis
    by (auto simp: rate_value)
qed

lemma ex_report:
  "report ex_final =
     ([Agreement 2 2 (Num 1), MAE (Num 10), DecisionAccuracy 0 0 (Num 0), Text ''Per-user:'',
       UserLine (HStr ''u1'') (Num 1) (Num 10) (Num 0) 1,
       UserLine (HStr ''u2'') (Num 1) (Num 10) (Num 0) 1], None)"
  by (simp add: ex_final_def report_def Let_def rate_value mean_abs_err_value prints_steps
      user_line_line_of line_of_def ex_stats_def less_char_def del: prints.simps(2))

theorem per_user_total_positive_witness:
  "eval_records no_float ex_index state0
     [ex_record ''u2'' (JArr [ex_expected]), ex_record ''u1'' (JArr [ex_expected])] = Inr ex_final
   \<and> (HStr ''u1'', ex_stats) \<in> set (per_user ex_final)
   \<and> 1 \<le> total ex_stats
   \<and> rate (agree ex_stats) (total ex_stats) = Inr (Num 1)
   \<and> UserLine (HStr ''u1'') (Num 1) (Num 10) (Num 0) 1 \<in> set (fst (report ex_final))"
proof -
  have m: "(HStr ''u1'', ex_stats) \<in> set (per_user ex_final)"
    by (simp add: ex_final_def)
  have l: "UserLine (HStr ''u1'') (Num 1) (Num 10) (Num 0) 1 \<in> set (fst (report ex_final))"
    by (simp add: ex_report)
  from per_user_total_positive [OF ex_run, of "HStr ''u1''" ex_stats
      "HStr ''u1''" "Num 1" "Num 10" "Num 0" 1] ex_run m l
  show ?thesis
    by (simp add: ex_stats_def)
qed

end
